theory Spec2Isabelle
  imports Complex_Main "HOL-Library.Char_ord" "HOL-Library.List_Lexorder" "HOL-Library.Multiset"
begin

section \<open>ec2-reaper: idle-window computation, aggregation and threshold checks\<close>

text \<open>
  A shallow embedding of \<^verbatim>\<open>reaper.py\<close> and \<^verbatim>\<open>ebs.py\<close>.

  Conventions of the embedding:
  \<^item> a \<^verbatim>\<open>datetime\<close> is an \<open>int\<close> (seconds since some epoch), a \<^verbatim>\<open>timedelta\<close> the
    difference of two of them;
  \<^item> Python numbers that may be floats (metric averages, thresholds, idle hours) are exact
    rationals, so \<^verbatim>\<open>total_seconds() / 3600\<close> is the exact quotient;
  \<^item> the remote services (EC2, CloudWatch) and the process environment are the fields of
    an \<open>env\<close> record; a service is a function of its request, so asking twice gives the
    same answer;
  \<^item> every \<^verbatim>\<open>raise\<close> is an \<open>Inl\<close> of the \<open>error\<close> type;
  \<^item> the remote calls a function makes are returned beside its value, as a list of events
    in the order the calls are made.
\<close>

subsection \<open>\<^verbatim>\<open>ebs.py\<close>\<close>

definition MAX_AVAILABLE :: nat where
  "MAX_AVAILABLE = 20"

definition MAX_IN_USE_OVER_200GB :: nat where
  "MAX_IN_USE_OVER_200GB = 10"

definition MAX_EBS_SIZE :: int where
  "MAX_EBS_SIZE = 10 * 1000"

text \<open>One element of a \<^verbatim>\<open>Tags\<close> list.\<close>

record tag =
  Key :: string
  Value :: string

text \<open>
  A volume dictionary as \<^verbatim>\<open>describe_volumes\<close> returns it; \<^verbatim>\<open>class Volume(dict)\<close> adds
  nothing to it. The key \<^verbatim>\<open>Tags\<close> may be absent (\<open>None\<close>).
\<close>

record volume =
  VolumeId :: string
  Tags :: "tag list option"
  State :: string
  Size :: int

record volumes_response =
  Volumes :: "volume list"
  NextToken :: "string option"


text \<open>
  The listing loop of \<^verbatim>\<open>ebs_reaper\<close>. The service is a function of the continuation token
  of the request (\<open>None\<close> when the request carries none). The request of this loop is the
  same in every round: it has the \<^verbatim>\<open>Filters\<close> only, and \<^verbatim>\<open>nexttoken\<close> is assigned but
  never sent. The loop may run forever, so it takes fuel, and \<open>None\<close> is "still running
  when the fuel is spent".
\<close>

fun describe_volumes_loop ::
  "nat \<Rightarrow> (string option \<Rightarrow> volumes_response) \<Rightarrow> volume list \<Rightarrow> volume list option" where
  "describe_volumes_loop 0 describe_volumes volumes_vec = None"
| "describe_volumes_loop (Suc fuel) describe_volumes volumes_vec =
     (let resp = describe_volumes None;
          nexttoken = NextToken resp;
          volumes_vec = volumes_vec @ Volumes resp
      in if nexttoken = None then Some volumes_vec
         else describe_volumes_loop fuel describe_volumes volumes_vec)"

text \<open>
  The three warnings, each with the numbers its message interpolates (the text of the
  message is fixed otherwise).
\<close>

datatype ebs_warning =
    AvailableExceedsThreshold nat nat
  | InUseOver200GBExceedsThreshold nat nat
  | TotalSizeExceedsThreshold int int

text \<open>
  The local function \<^verbatim>\<open>warn\<close>: it sends the message to Slack when a sender was given, then
  prints it. The sender may raise; then nothing is printed. The state is the list of the
  messages printed so far.
\<close>

definition warn ::
  "(ebs_warning \<Rightarrow> 'e + unit) option \<Rightarrow> ebs_warning \<Rightarrow> ebs_warning list \<Rightarrow>
     ('e + unit) \<times> ebs_warning list" where
  "warn slack_send_func msg printed =
     (case slack_send_func of
        None \<Rightarrow> (Inr (), printed @ [msg])
      | Some send \<Rightarrow>
          (case send msg of
             Inl err \<Rightarrow> (Inl err, printed)
           | Inr _ \<Rightarrow> (Inr (), printed @ [msg])))"

text \<open>
  \<^verbatim>\<open>ebs_reaper\<close> after the listing: the three sums and the three checks, in the order of
  the source. The table of the volumes it prints first cannot raise (\<^verbatim>\<open>Volume.name\<close> is
  always a string) and is left out.
\<close>

definition check_volumes ::
  "(ebs_warning \<Rightarrow> 'e + unit) option \<Rightarrow> volume list \<Rightarrow> ('e + unit) \<times> ebs_warning list" where
  "check_volumes slack_send_func volumes_vec =
     (let total_size = sum_list (map Size volumes_vec);
          available_volumes = filter (\<lambda>v. State v = ''available'') volumes_vec;
          inuse_volumes_over_200GB =
            filter (\<lambda>v. State v = ''in-use'' \<and> Size v > 200) volumes_vec;
          n_available = length available_volumes;
          (r1, printed) =
            (if n_available > MAX_AVAILABLE
             then warn slack_send_func (AvailableExceedsThreshold n_available MAX_AVAILABLE) []
             else (Inr (), []))
      in case r1 of
           Inl err \<Rightarrow> (Inl err, printed)
         | Inr _ \<Rightarrow>
             let n_inuse_over_200GB = length inuse_volumes_over_200GB;
                 (r2, printed) =
                   (if n_inuse_over_200GB > MAX_IN_USE_OVER_200GB
                    then warn slack_send_func
                           (InUseOver200GBExceedsThreshold n_inuse_over_200GB
                              MAX_IN_USE_OVER_200GB) printed
                    else (Inr (), printed))
             in case r2 of
                  Inl err \<Rightarrow> (Inl err, printed)
                | Inr _ \<Rightarrow>
                    if total_size > MAX_EBS_SIZE
                    then warn slack_send_func
                           (TotalSizeExceedsThreshold total_size MAX_EBS_SIZE) printed
                    else (Inr (), printed))"

definition ebs_reaper ::
  "nat \<Rightarrow> (string option \<Rightarrow> volumes_response) \<Rightarrow> (ebs_warning \<Rightarrow> 'e + unit) option \<Rightarrow>
     (('e + unit) \<times> ebs_warning list) option" where
  "ebs_reaper fuel describe_volumes slack_send_func =
     (case describe_volumes_loop fuel describe_volumes [] of
        None \<Rightarrow> None
      | Some volumes_vec \<Rightarrow> Some (check_volumes slack_send_func volumes_vec))"

subsection \<open>Constants of \<^verbatim>\<open>reaper.py\<close>\<close>

definition REPORTING_PERIOD_SECS :: int where
  "REPORTING_PERIOD_SECS = 5 * 60"


subsection \<open>Data\<close>

text \<open>One element of \<^verbatim>\<open>resp['Datapoints']\<close>.\<close>

record datapoint =
  Average :: rat
  Timestamp :: int

record instance_state =
  Code :: int
  Name :: string

text \<open>
  An instance dictionary as \<^verbatim>\<open>describe_instances\<close> returns it. The key \<^verbatim>\<open>Tags\<close> may be
  absent (\<open>None\<close>); the other keys are always there.
\<close>

record instance_dict =
  InstanceId :: string
  InstanceType :: string
  Tags :: "tag list option"
  State :: instance_state

text \<open>
  \<^verbatim>\<open>class Instance(dict)\<close>: the dictionary and the three activity floors the constructor
  stores.
\<close>

record ec2_instance = instance_dict +
  min_cpu :: rat
  min_disk :: rat
  min_network :: rat

definition Instance :: "instance_dict \<Rightarrow> rat \<Rightarrow> rat \<Rightarrow> rat \<Rightarrow> ec2_instance" where
  "Instance instance_dict min_cpu_utilisation min_disk_ops min_network_packets =
     \<lparr>InstanceId = InstanceId instance_dict,
      InstanceType = InstanceType instance_dict,
      Tags = Tags instance_dict,
      State = State instance_dict,
      min_cpu = min_cpu_utilisation,
      min_disk = min_disk_ops,
      min_network = min_network_packets\<rparr>"

record ec2_response =
  Reservations :: "instance_dict list list"
  NextToken :: "string option"

datatype error =
    StopTimeoutTooLong int
  | WarningTimeoutTooLong int
  | MissingWebhook
  | KeyError string
  | TypeError

text \<open>
  The remote calls of a run, and the two callbacks \<^verbatim>\<open>reaper\<close> invokes. What a callback
  does inside is the callback's business and is not recorded.
\<close>

datatype event =
    DescribeInstances string
  | GetMetricStatistics string string
  | WarningCallback ec2_instance
  | StopInstanceCallback ec2_instance

record env =
  describe_instances :: "string \<Rightarrow> ec2_response"
  get_metric_statistics :: "string \<Rightarrow> string \<Rightarrow> string \<Rightarrow> datapoint list"
  SLACK_WEB_HOOK :: "string option"

subsection \<open>\<^verbatim>\<open>Instance.get_idle_period_hours_for_metric\<close>\<close>

text \<open>
  The loop over \<^verbatim>\<open>zip(idle_periods[:-1], idle_periods[1:])\<close>: it leaves \<^verbatim>\<open>idle_start\<close> at
  its initial value unless a pair is more than a reporting period apart, and stops at the
  first such pair.
\<close>

fun find_idle_start :: "int \<Rightarrow> (int \<times> int) list \<Rightarrow> int" where
  "find_idle_start idle_start [] = idle_start"
| "find_idle_start idle_start ((cur, prev) # pairs) =
     (if cur - prev > REPORTING_PERIOD_SECS then cur
      else find_idle_start idle_start pairs)"

text \<open>
  \<^verbatim>\<open>idle_periods.sort(reverse=True)\<close>.
\<close>

definition sort_reverse :: "int list \<Rightarrow> int list" where
  "sort_reverse xs = rev (sort xs)"

text \<open>
  The loop that fills \<^verbatim>\<open>idle_periods\<close>: the timestamps of the datapoints whose average is
  strictly below the threshold, in the order of the response.
\<close>

definition collect_idle_periods :: "datapoint list \<Rightarrow> rat \<Rightarrow> int list" where
  "collect_idle_periods datapoints idle_threshold =
     map Timestamp (filter (\<lambda>dp. Average dp < idle_threshold) datapoints)"

text \<open>
  The part of \<^verbatim>\<open>get_idle_period_hours_for_metric\<close> after the response is in: from
  \<^verbatim>\<open>idle_periods = []\<close> to the end.
\<close>

definition idle_hours_of_datapoints :: "datapoint list \<Rightarrow> rat \<Rightarrow> rat" where
  "idle_hours_of_datapoints datapoints idle_threshold =
     (if length datapoints = 0 then - 1
      else
        let idle_periods = collect_idle_periods datapoints idle_threshold
        in if length idle_periods \<noteq> 0 then
             let idle_periods = sort_reverse idle_periods;
                 idle_start = find_idle_start (last idle_periods)
                                (zip (butlast idle_periods) (tl idle_periods))
             in of_int (hd idle_periods - idle_start) / 3600
           else 0)"

definition get_idle_period_hours_for_metric ::
  "env \<Rightarrow> ec2_instance \<Rightarrow> string \<Rightarrow> string \<Rightarrow> rat \<Rightarrow> rat \<times> event list" where
  "get_idle_period_hours_for_metric e self metricname unit idle_threshold =
     (idle_hours_of_datapoints
        (get_metric_statistics e (InstanceId self) metricname unit) idle_threshold,
      [GetMetricStatistics (InstanceId self) metricname])"


subsection \<open>The properties of \<^verbatim>\<open>Instance\<close>\<close>

text \<open>
  \<^verbatim>\<open>Instance.name\<close>: \<^verbatim>\<open>self['Tags']\<close> raises when the key is absent; without a tag whose
  key is \<^verbatim>\<open>Name\<close> the result is Python's \<^verbatim>\<open>None\<close>.
\<close>

definition Instance_name :: "ec2_instance \<Rightarrow> error + string option" where
  "Instance_name self =
     (case Tags self of
        None \<Rightarrow> Inl (KeyError ''Tags'')
      | Some tags \<Rightarrow>
          (case find (\<lambda>tagdict. Key tagdict = ''Name'') tags of
             Some tagdict \<Rightarrow> Inr (Some (Value tagdict))
           | None \<Rightarrow> Inr None))"

definition state :: "ec2_instance \<Rightarrow> string" where
  "state self = Name (State self)"

definition is_running :: "ec2_instance \<Rightarrow> bool" where
  "is_running self \<longleftrightarrow> Code (State self) = 16"

definition cpu_idle_period_hours :: "env \<Rightarrow> ec2_instance \<Rightarrow> rat \<times> event list" where
  "cpu_idle_period_hours e self =
     get_idle_period_hours_for_metric e self ''CPUUtilization'' ''Percent'' (min_cpu self)"

definition network_idle_period_hours :: "env \<Rightarrow> ec2_instance \<Rightarrow> rat \<times> event list" where
  "network_idle_period_hours e self =
     (let (packets_in_idle, calls_in) =
            get_idle_period_hours_for_metric e self ''NetworkPacketsIn'' ''Count''
              (min_network self);
          (packets_out_idle, calls_out) =
            get_idle_period_hours_for_metric e self ''NetworkPacketsOut'' ''Count''
              (min_network self)
      in (max packets_in_idle packets_out_idle, calls_in @ calls_out))"

text \<open>
  One direction of \<^verbatim>\<open>disk_idle_period_hours\<close>: the first metric, and the second one when
  the first result is below zero.
\<close>

definition disk_metric_with_fallback ::
  "env \<Rightarrow> ec2_instance \<Rightarrow> string \<Rightarrow> string \<Rightarrow> rat \<times> event list" where
  "disk_metric_with_fallback e self ebs_metric disk_metric =
     (let (idle, calls) =
            get_idle_period_hours_for_metric e self ebs_metric ''Count'' (min_disk self)
      in if idle < 0 then
           let (idle, more_calls) =
                 get_idle_period_hours_for_metric e self disk_metric ''Count'' (min_disk self)
           in (idle, calls @ more_calls)
         else (idle, calls))"

definition disk_idle_period_hours :: "env \<Rightarrow> ec2_instance \<Rightarrow> rat \<times> event list" where
  "disk_idle_period_hours e self =
     (let (disk_read_idle, calls_read) =
            disk_metric_with_fallback e self ''EBSReadOps'' ''DiskReadOps'';
          (disk_write_idle, calls_write) =
            disk_metric_with_fallback e self ''EBSWriteOps'' ''DiskWriteOps''
      in (max disk_read_idle disk_write_idle, calls_read @ calls_write))"

definition idle_period_hours :: "env \<Rightarrow> ec2_instance \<Rightarrow> rat \<times> event list" where
  "idle_period_hours e self =
     (let (cpu, calls_cpu) = cpu_idle_period_hours e self;
          (disk, calls_disk) = disk_idle_period_hours e self;
          (network, calls_network) = network_idle_period_hours e self
      in (min cpu (min disk network), calls_cpu @ calls_disk @ calls_network))"

text \<open>
  The format specification \<^verbatim>\<open>:Ns\<close> on a string: padded with spaces on the right to the
  width, never cut.
\<close>

definition format_s :: "nat \<Rightarrow> string \<Rightarrow> string" where
  "format_s width s = s @ replicate (width - length s) CHR '' ''"

text \<open>
  \<^verbatim>\<open>Instance.__str__\<close>. The name is formatted first, with \<^verbatim>\<open>:64s\<close>; \<^verbatim>\<open>None\<close> does not
  accept a format specification, and the f-string raises \<^verbatim>\<open>TypeError\<close>.
\<close>

definition Instance_str :: "ec2_instance \<Rightarrow> error + string" where
  "Instance_str self =
     (case Instance_name self of
        Inl err \<Rightarrow> Inl err
      | Inr None \<Rightarrow> Inl TypeError
      | Inr (Some name) \<Rightarrow>
          Inr (format_s 64 name @ ''  '' @ InstanceId self @ ''  ''
               @ format_s 16 (InstanceType self) @ '' '' @ state self))"

subsection \<open>Notification and the stop action\<close>

text \<open>
  \<^verbatim>\<open>slack_send\<close>: without the webhook it raises; otherwise it posts and returns, whatever
  the status of the response. The message takes no part in the control flow.
\<close>

definition slack_send :: "env \<Rightarrow> 'msg \<Rightarrow> error + unit" where
  "slack_send e msg =
     (case SLACK_WEB_HOOK e of
        None \<Rightarrow> Inl MissingWebhook
      | Some webhook \<Rightarrow> Inr ())"

text \<open>
  \<^verbatim>\<open>slack_warn\<close>: the message is kept as the three values its f-string interpolates, in
  the order it evaluates them.
\<close>

definition slack_warn :: "env \<Rightarrow> ec2_instance \<Rightarrow> error + unit" where
  "slack_warn e inst =
     (case Instance_name inst of
        Inl err \<Rightarrow> Inl err
      | Inr name \<Rightarrow> slack_send e (name, InstanceId inst, fst (idle_period_hours e inst)))"

text \<open>\<^verbatim>\<open>stop_instance\<close>: it prints the instance, and does nothing else.\<close>

definition stop_instance :: "ec2_instance \<Rightarrow> error + unit" where
  "stop_instance inst =
     (case Instance_str inst of
        Inl err \<Rightarrow> Inl err
      | Inr line \<Rightarrow> Inr ())"

subsection \<open>\<^verbatim>\<open>reaper\<close>\<close>

text \<open>The keyword arguments of \<^verbatim>\<open>reaper\<close>.\<close>

record kwargs =
  min_cpu_utilisation :: rat
  min_disk_ops :: rat
  min_network_packets :: rat
  stop_instance_idle_timeout_hours :: int
  warning_idle_timeout_hours :: int
  verbose :: bool
  include_stopped :: bool
  warning_callback :: "ec2_instance \<Rightarrow> error + unit"
  stop_instance_callback :: "ec2_instance \<Rightarrow> error + unit"

record counters =
  warned :: nat
  stopped :: nat
  checked :: nat

text \<open>
  The listing loop of \<^verbatim>\<open>reaper\<close>: each request carries the token of the previous response
  (the empty string at first). It takes fuel, as the loop of \<^verbatim>\<open>ebs_reaper\<close> does.
\<close>

fun describe_instances_loop ::
  "nat \<Rightarrow> env \<Rightarrow> kwargs \<Rightarrow> string \<Rightarrow> ec2_instance list \<Rightarrow> event list \<Rightarrow>
     (ec2_instance list \<times> event list) option" where
  "describe_instances_loop 0 e k nexttoken instances_vec calls = None"
| "describe_instances_loop (Suc fuel) e k nexttoken instances_vec calls =
     (let resp = describe_instances e nexttoken;
          calls = calls @ [DescribeInstances nexttoken];
          instances_vec = instances_vec @
            concat (map (map (\<lambda>d. Instance d (min_cpu_utilisation k) (min_disk_ops k)
                                   (min_network_packets k)))
                     (Reservations resp))
      in case NextToken resp of
           None \<Rightarrow> Some (instances_vec, calls)
         | Some nexttoken \<Rightarrow> describe_instances_loop fuel e k nexttoken instances_vec calls)"


text \<open>
  The decision on one instance in scope: the \<^verbatim>\<open>if\<close> on the two timeouts. The property
  \<^verbatim>\<open>idle_period_hours\<close> is read once for the stop timeout and, below it, once more for the
  warning timeout. A callback is recorded when it is called, whether it raises or not.
\<close>

definition act_on_idleness ::
  "env \<Rightarrow> kwargs \<Rightarrow> ec2_instance \<Rightarrow> counters \<Rightarrow> (error + counters) \<times> event list" where
  "act_on_idleness e k inst c =
     (let (idle, calls) = idle_period_hours e inst
      in if idle < of_int (stop_instance_idle_timeout_hours k) then
           let (idle, more_calls) = idle_period_hours e inst
           in if idle \<ge> of_int (warning_idle_timeout_hours k) then
                (case warning_callback k inst of
                   Inl err \<Rightarrow> (Inl err, calls @ more_calls @ [WarningCallback inst])
                 | Inr _ \<Rightarrow> (Inr (c\<lparr>warned := warned c + 1\<rparr>),
                             calls @ more_calls @ [WarningCallback inst]))
              else (Inr c, calls @ more_calls)
         else
           (case stop_instance_callback k inst of
              Inl err \<Rightarrow> (Inl err, calls @ [StopInstanceCallback inst])
            | Inr _ \<Rightarrow> (Inr (c\<lparr>stopped := stopped c + 1\<rparr>),
                        calls @ [StopInstanceCallback inst])))"

text \<open>
  The verbose line of one instance: the name, then the three categories, each read again.
\<close>

definition print_idleness :: "env \<Rightarrow> ec2_instance \<Rightarrow> (error + unit) \<times> event list" where
  "print_idleness e inst =
     (case Instance_name inst of
        Inl err \<Rightarrow> (Inl err, [])
      | Inr name \<Rightarrow>
          (Inr (), snd (cpu_idle_period_hours e inst) @ snd (network_idle_period_hours e inst)
                   @ snd (disk_idle_period_hours e inst)))"

text \<open>The body of the loop over \<^verbatim>\<open>instances_vec\<close>.\<close>

definition check_instance ::
  "env \<Rightarrow> kwargs \<Rightarrow> ec2_instance \<Rightarrow> counters \<Rightarrow> (error + counters) \<times> event list" where
  "check_instance e k inst c =
     (if is_running inst \<or> include_stopped k then
        (case act_on_idleness e k inst (c\<lparr>checked := checked c + 1\<rparr>) of
           (Inl err, calls) \<Rightarrow> (Inl err, calls)
         | (Inr c, calls) \<Rightarrow>
             if verbose k then
               (case print_idleness e inst of
                  (Inl err, more_calls) \<Rightarrow> (Inl err, calls @ more_calls)
                | (Inr _, more_calls) \<Rightarrow> (Inr c, calls @ more_calls))
             else (Inr c, calls))
      else (Inr c, []))"

fun check_instances ::
  "env \<Rightarrow> kwargs \<Rightarrow> ec2_instance list \<Rightarrow> counters \<Rightarrow> (error + counters) \<times> event list" where
  "check_instances e k [] c = (Inr c, [])"
| "check_instances e k (inst # rest) c =
     (case check_instance e k inst c of
        (Inl err, calls) \<Rightarrow> (Inl err, calls)
      | (Inr c, calls) \<Rightarrow>
          (let (r, more_calls) = check_instances e k rest c in (r, calls @ more_calls)))"


subsection \<open>\<^verbatim>\<open>main\<close>\<close>



subsection \<open>The actions in a run\<close>

text \<open>The events of a run that are calls of one of the two callbacks.\<close>

fun is_action :: "event \<Rightarrow> bool" where
  "is_action (WarningCallback inst) = True"
| "is_action (StopInstanceCallback inst) = True"
| "is_action (DescribeInstances nexttoken) = False"
| "is_action (GetMetricStatistics instance_id metricname) = False"

definition actions_of :: "event list \<Rightarrow> event list" where
  "actions_of events = filter is_action events"

section \<open>Concrete inputs\<close>

text \<open>
  A running instance with a \<^verbatim>\<open>Name\<close> tag, and the default floors of the command line
  (3 percent, 1 operation, 50 packets).
\<close>

definition named_instance_dict :: instance_dict where
  "named_instance_dict =
     \<lparr>InstanceId = ''i-0a'', InstanceType = ''t2.micro'',
      Tags = Some [\<lparr>Key = ''Name'', Value = ''web''\<rparr>],
      State = \<lparr>Code = 16, Name = ''running''\<rparr>\<rparr>"

definition named_instance :: ec2_instance where
  "named_instance = Instance named_instance_dict 3 1 50"

text \<open>An account with that one instance, no metric data at all, and no webhook.\<close>

definition no_data_env :: env where
  "no_data_env =
     \<lparr>describe_instances = (\<lambda>nexttoken. \<lparr>Reservations = [[named_instance_dict]], NextToken = None\<rparr>),
      get_metric_statistics = (\<lambda>instance_id metricname unit. []),
      SLACK_WEB_HOOK = None\<rparr>"

text \<open>
  Samples every five minutes: below the threshold 3 at minutes 0, 5 and 10, above it at
  minute 15, and below it again at minute 60.
\<close>

definition isolated_series :: "datapoint list" where
  "isolated_series =
     [\<lparr>Average = 1, Timestamp = 0\<rparr>, \<lparr>Average = 1, Timestamp = 300\<rparr>,
      \<lparr>Average = 1, Timestamp = 600\<rparr>, \<lparr>Average = 5, Timestamp = 900\<rparr>,
      \<lparr>Average = 1, Timestamp = 3600\<rparr>]"

text \<open>
  Three idle samples, at seconds 0, 301 and 601: the two newest are exactly one reporting
  period apart, the two oldest one second more.
\<close>

definition boundary_series :: "datapoint list" where
  "boundary_series =
     [\<lparr>Average = 1, Timestamp = 0\<rparr>, \<lparr>Average = 1, Timestamp = 301\<rparr>,
      \<lparr>Average = 1, Timestamp = 601\<rparr>]"

text \<open>
  A series of \<open>n\<close> samples, one every five minutes from second 0 on, all with average 0:
  an unbroken idle run of \<open>n - 1\<close> periods.
\<close>

definition idle_series :: "nat \<Rightarrow> datapoint list" where
  "idle_series n = map (\<lambda>i. \<lparr>Average = 0, Timestamp = 300 * int i\<rparr>) [0..<n]"

text \<open>
  An account where every metric of every instance has been idle for the last five hours
  (61 samples), and no webhook is set.
\<close>

definition five_hours_idle_env :: env where
  "five_hours_idle_env =
     \<lparr>describe_instances = (\<lambda>nexttoken. \<lparr>Reservations = [[named_instance_dict]], NextToken = None\<rparr>),
      get_metric_statistics = (\<lambda>instance_id metricname unit. idle_series 61),
      SLACK_WEB_HOOK = None\<rparr>"

text \<open>
  An account where the CPU metric has no data, both EBS disk metrics have been idle for
  eight hours (97 samples) and both network metrics for twelve hours (145 samples).
\<close>

definition cpu_unknown_env :: env where
  "cpu_unknown_env =
     \<lparr>describe_instances = (\<lambda>nexttoken. \<lparr>Reservations = [[named_instance_dict]], NextToken = None\<rparr>),
      get_metric_statistics = (\<lambda>instance_id metricname unit.
         if metricname = ''CPUUtilization'' then []
         else if metricname = ''EBSReadOps'' \<or> metricname = ''EBSWriteOps'' then idle_series 97
         else idle_series 145),
      SLACK_WEB_HOOK = None\<rparr>"

text \<open>The default timeouts of the command line, with \<^verbatim>\<open>stop_instance\<close> and \<^verbatim>\<open>slack_warn\<close>.\<close>

definition default_kwargs :: "env \<Rightarrow> kwargs" where
  "default_kwargs e =
     \<lparr>min_cpu_utilisation = 3, min_disk_ops = 1, min_network_packets = 50,
      stop_instance_idle_timeout_hours = 6, warning_idle_timeout_hours = 4,
      verbose = False, include_stopped = False,
      warning_callback = slack_warn e, stop_instance_callback = stop_instance\<rparr>"



definition unnamed_volume :: volume where
  "unnamed_volume =
     \<lparr>VolumeId = ''vol-0a'', volume.Tags = Some [\<lparr>Key = ''Owner'', Value = ''ops''\<rparr>],
      volume.State = ''in-use'', Size = 8\<rparr>"

text \<open>Twenty-five unattached volumes of 480 GB each: 12000 GB in all.\<close>

definition available_volume :: volume where
  "available_volume =
     \<lparr>VolumeId = ''vol-0b'', volume.Tags = None, volume.State = ''available'', Size = 480\<rparr>"

definition many_available_volumes :: "volume list" where
  "many_available_volumes = replicate 25 available_volume"

text \<open>
  A listing service that holds its answer as a list of pages: page \<open>i\<close> is served for the
  token of \<open>i\<close> characters (the empty token, or no token at all, asks for the first page),
  and the response carries the token of the next page as long as there is one.
\<close>

definition page_token :: "nat \<Rightarrow> string" where
  "page_token i = replicate i CHR ''x''"

definition paged_instances :: "instance_dict list list list \<Rightarrow> string \<Rightarrow> ec2_response" where
  "paged_instances pages nexttoken =
     (let i = length nexttoken
      in \<lparr>Reservations = (if i < length pages then pages ! i else []),
          NextToken = (if Suc i < length pages then Some (page_token (Suc i)) else None)\<rparr>)"

definition paged_volumes :: "volume list list \<Rightarrow> string option \<Rightarrow> volumes_response" where
  "paged_volumes pages nexttoken =
     (let i = (case nexttoken of None \<Rightarrow> 0 | Some token \<Rightarrow> length token)
      in \<lparr>Volumes = (if i < length pages then pages ! i else []),
          volumes_response.NextToken =
            (if Suc i < length pages then Some (page_token (Suc i)) else None)\<rparr>)"

definition paged_env :: "instance_dict list list list \<Rightarrow> env" where
  "paged_env pages =
     \<lparr>describe_instances = paged_instances pages,
      get_metric_statistics = (\<lambda>instance_id metricname unit. []),
      SLACK_WEB_HOOK = None\<rparr>"

text \<open>Two volumes, listed on two pages of one volume each.\<close>

definition two_pages_of_volumes :: "volume list list" where
  "two_pages_of_volumes = [[unnamed_volume], [available_volume]]"

section \<open>Properties of the idle-window computation\<close>

subsection \<open>Sorting newest first, and the scan for the first break\<close>

lemma set_sort_reverse: "set (sort_reverse xs) = set xs"
  by (simp add: sort_reverse_def)

lemma length_sort_reverse: "length (sort_reverse xs) = length xs"
  by (simp add: sort_reverse_def)

lemma sort_reverse_Nil_iff: "sort_reverse xs = [] \<longleftrightarrow> xs = []"
  using length_sort_reverse [of xs] by (metis length_0_conv)

lemma sorted_wrt_sort_reverse: "sorted_wrt (\<lambda>a b. b \<le> a) (sort_reverse xs)"
  by (simp add: sort_reverse_def sorted_wrt_rev)

lemma hd_sort_reverse_ge:
  assumes "x \<in> set xs"
  shows "x \<le> hd (sort_reverse xs)"
proof (cases "sort_reverse xs")
  case Nil
  with assms show ?thesis by (simp add: sort_reverse_Nil_iff)
next
  case (Cons y ys)
  have "sorted_wrt (\<lambda>a b. b \<le> a) (y # ys)"
    using sorted_wrt_sort_reverse [of xs] Cons by simp
  moreover have "x \<in> set (y # ys)"
    using assms set_sort_reverse [of xs] Cons by simp
  ultimately show ?thesis using Cons by auto
qed

lemma find_idle_start_in_set:
  "find_idle_start d ps \<in> insert d (fst ` set ps)"
  by (induction d ps rule: find_idle_start.induct) auto

lemma scan_first_break:
  assumes "s \<noteq> []"
  shows "\<exists>k<length s.
           (\<forall>j<k. s ! j - s ! Suc j \<le> REPORTING_PERIOD_SECS) \<and>
           (Suc k < length s \<longrightarrow> s ! k - s ! Suc k > REPORTING_PERIOD_SECS) \<and>
           find_idle_start (last s) (zip (butlast s) (tl s)) = s ! k"
  using assms
proof (induction s rule: induct_list012)
  case 1
  then show ?case by simp
next
  case (2 x)
  then show ?case by simp
next
  case (3 x y r)
  show ?case
  proof (cases "x - y > REPORTING_PERIOD_SECS")
    case True
    then show ?thesis by (intro exI [of _ 0]) simp
  next
    case False
    from 3 obtain k where k: "k < length (y # r)"
      "\<forall>j<k. (y # r) ! j - (y # r) ! Suc j \<le> REPORTING_PERIOD_SECS"
      "Suc k < length (y # r) \<longrightarrow> (y # r) ! k - (y # r) ! Suc k > REPORTING_PERIOD_SECS"
      "find_idle_start (last (y # r)) (zip (butlast (y # r)) (tl (y # r))) = (y # r) ! k"
      by auto
    have "\<forall>j<Suc k. (x # y # r) ! j - (x # y # r) ! Suc j \<le> REPORTING_PERIOD_SECS"
    proof (intro allI impI)
      fix j assume "j < Suc k"
      then show "(x # y # r) ! j - (x # y # r) ! Suc j \<le> REPORTING_PERIOD_SECS"
        using False k(2) by (cases j) auto
    qed
    then show ?thesis
      using k False by (intro exI [of _ "Suc k"]) simp
  qed
qed


lemma idle_start_in_set:
  assumes "s \<noteq> []"
  shows "find_idle_start (last s) (zip (butlast s) (tl s)) \<in> set s"
proof -
  have "find_idle_start (last s) (zip (butlast s) (tl s))
          \<in> insert (last s) (fst ` set (zip (butlast s) (tl s)))"
    by (rule find_idle_start_in_set)
  moreover have "last s \<in> set s" using assms by simp
  moreover have "fst ` set (zip (butlast s) (tl s)) \<subseteq> set s"
    by (auto dest!: set_zip_leftD dest: in_set_butlastD)
  ultimately show ?thesis by auto
qed

lemma idle_hours_of_datapoints_empty: "idle_hours_of_datapoints [] thr = - 1"
  by (simp add: idle_hours_of_datapoints_def)

lemma idle_hours_of_datapoints_no_idle:
  "dps \<noteq> [] \<Longrightarrow> collect_idle_periods dps thr = [] \<Longrightarrow> idle_hours_of_datapoints dps thr = 0"
  by (simp add: idle_hours_of_datapoints_def)

lemma idle_hours_of_datapoints_idle:
  assumes "collect_idle_periods dps thr \<noteq> []"
  shows "idle_hours_of_datapoints dps thr =
           of_int (hd (sort_reverse (collect_idle_periods dps thr))
                   - find_idle_start (last (sort_reverse (collect_idle_periods dps thr)))
                       (zip (butlast (sort_reverse (collect_idle_periods dps thr)))
                            (tl (sort_reverse (collect_idle_periods dps thr))))) / 3600"
proof -
  have "dps \<noteq> []" using assms by (auto simp: collect_idle_periods_def)
  then show ?thesis using assms by (simp add: idle_hours_of_datapoints_def Let_def)
qed

lemma idle_hours_of_datapoints_nonneg:
  assumes "dps \<noteq> []"
  shows "0 \<le> idle_hours_of_datapoints dps thr"
proof (cases "collect_idle_periods dps thr = []")
  case True
  with assms show ?thesis by (simp add: idle_hours_of_datapoints_no_idle)
next
  case False
  define s where "s = sort_reverse (collect_idle_periods dps thr)"
  have ne: "s \<noteq> []" using False by (simp add: s_def sort_reverse_Nil_iff)
  have "find_idle_start (last s) (zip (butlast s) (tl s)) \<in> set (collect_idle_periods dps thr)"
    using idle_start_in_set [OF ne] by (simp add: s_def set_sort_reverse)
  then have "find_idle_start (last s) (zip (butlast s) (tl s)) \<le> hd s"
    unfolding s_def by (rule hd_sort_reverse_ge)
  then show ?thesis
    using idle_hours_of_datapoints_idle [OF False] by (simp add: s_def)
qed

lemma idle_hours_of_datapoints_range:
  "idle_hours_of_datapoints dps thr = - 1 \<or> 0 \<le> idle_hours_of_datapoints dps thr"
  by (cases "dps = []") (simp_all add: idle_hours_of_datapoints_empty idle_hours_of_datapoints_nonneg)

lemma idle_hours_of_datapoints_neg_iff:
  "idle_hours_of_datapoints dps thr < 0 \<longleftrightarrow> idle_hours_of_datapoints dps thr = - 1"
  using idle_hours_of_datapoints_range [of dps thr] by auto

lemma idle_hours_unknown_iff:
  "idle_hours_of_datapoints dps thr = - 1 \<longleftrightarrow> dps = []"
proof (cases "dps = []")
  case True
  then show ?thesis by (simp add: idle_hours_of_datapoints_empty)
next
  case False
  then show ?thesis using idle_hours_of_datapoints_nonneg [OF False, of thr] by simp
qed


lemma sort_reverse_top:
  assumes "\<forall>x\<in>set xs. x \<le> t" and "mset ys = add_mset t (mset xs)"
  shows "sort_reverse ys = t # sort_reverse xs"
proof -
  have "sorted (sort xs @ [t])"
    using assms(1) by (simp add: sorted_append)
  moreover have "mset ys = mset (sort xs @ [t])"
    using assms(2) by simp
  ultimately have "sort ys = sort xs @ [t]"
    by (metis properties_for_sort)
  then show ?thesis by (simp add: sort_reverse_def)
qed

lemma scan_isolated_head:
  assumes "\<forall>x\<in>set r. t - x > REPORTING_PERIOD_SECS"
  shows "find_idle_start (last (t # r)) (zip (butlast (t # r)) (tl (t # r))) = t"
proof (cases r)
  case Nil
  then show ?thesis by simp
next
  case (Cons y r')
  then have "t - y > REPORTING_PERIOD_SECS" using assms by simp
  then show ?thesis using Cons by simp
qed

lemma collect_idle_periods_append:
  "collect_idle_periods (xs @ ys) thr = collect_idle_periods xs thr @ collect_idle_periods ys thr"
  by (simp add: collect_idle_periods_def)

lemma in_collect_idle_periods:
  "x \<in> set (collect_idle_periods dps thr) \<longleftrightarrow>
     (\<exists>j<length dps. Average (dps ! j) < thr \<and> x = Timestamp (dps ! j))"
  by (auto simp: collect_idle_periods_def in_set_conv_nth)

lemma isolated_most_recent_zero:
  assumes i: "i < length dps" and idle: "Average (dps ! i) < thr"
    and iso: "\<forall>j<length dps. j \<noteq> i \<longrightarrow> Average (dps ! j) < thr \<longrightarrow>
                Timestamp (dps ! i) - Timestamp (dps ! j) > REPORTING_PERIOD_SECS"
  shows "idle_hours_of_datapoints dps thr = 0"
proof -
  define t where "t = Timestamp (dps ! i)"
  define A where "A = collect_idle_periods (take i dps) thr"
  define B where "B = collect_idle_periods (drop (Suc i) dps) thr"
  have split: "dps = take i dps @ [dps ! i] @ drop (Suc i) dps"
    using i by (simp add: id_take_nth_drop [symmetric])
  have "collect_idle_periods dps thr =
          A @ collect_idle_periods [dps ! i] thr @ B"
    unfolding A_def B_def
    by (subst split) (simp only: collect_idle_periods_append)
  then have coll: "collect_idle_periods dps thr = A @ [t] @ B"
    using idle by (simp add: collect_idle_periods_def t_def)
  have far: "t - x > REPORTING_PERIOD_SECS" if "x \<in> set (A @ B)" for x
  proof -
    from that consider "x \<in> set A" | "x \<in> set B" by auto
    then show ?thesis
    proof cases
      case 1
      then obtain j where j: "j < length (take i dps)" "Average (take i dps ! j) < thr"
          "x = Timestamp (take i dps ! j)"
        unfolding A_def in_collect_idle_periods by blast
      then have "j < length dps" "j \<noteq> i" "take i dps ! j = dps ! j" using i by auto
      with j iso show ?thesis by (simp add: t_def)
    next
      case 2
      then obtain j where j: "j < length (drop (Suc i) dps)"
          "Average (drop (Suc i) dps ! j) < thr" "x = Timestamp (drop (Suc i) dps ! j)"
        unfolding B_def in_collect_idle_periods by blast
      then have "Suc i + j < length dps" "Suc i + j \<noteq> i"
          "drop (Suc i) dps ! j = dps ! (Suc i + j)" using i by auto
      with j iso show ?thesis by (simp add: t_def)
    qed
  qed
  have per: "REPORTING_PERIOD_SECS \<ge> 0" by (simp add: REPORTING_PERIOD_SECS_def)
  have "\<forall>x\<in>set (A @ B). x \<le> t" using far per by fastforce
  moreover have "mset (collect_idle_periods dps thr) = add_mset t (mset (A @ B))"
    by (simp add: coll)
  ultimately have s: "sort_reverse (collect_idle_periods dps thr) = t # sort_reverse (A @ B)"
    by (rule sort_reverse_top)
  have "\<forall>x\<in>set (sort_reverse (A @ B)). t - x > REPORTING_PERIOD_SECS"
    using far by (simp add: set_sort_reverse)
  then have "find_idle_start (last (t # sort_reverse (A @ B)))
               (zip (butlast (t # sort_reverse (A @ B))) (tl (t # sort_reverse (A @ B)))) = t"
    by (rule scan_isolated_head)
  moreover have "collect_idle_periods dps thr \<noteq> []" using coll by simp
  ultimately show ?thesis
    using idle_hours_of_datapoints_idle [of dps thr] s by simp
qed

subsection \<open>A series without samples\<close>

lemma fst_get_idle_period_hours_for_metric:
  "fst (get_idle_period_hours_for_metric e self metricname unit thr) =
     idle_hours_of_datapoints (get_metric_statistics e (InstanceId self) metricname unit) thr"
  by (simp add: get_idle_period_hours_for_metric_def)

text \<open>
  Claim C4. When the response has no datapoints, \<^verbatim>\<open>get_idle_period_hours_for_metric\<close>
  returns the number the source uses for "unknown", \<open>- 1\<close>, and so not \<open>0\<close>. The sentinel
  cannot be mistaken for an idle duration: for any request, the result is \<open>- 1\<close> exactly
  when the response has no datapoints, and a result below zero is always this sentinel
  (every duration computed from samples is at least \<open>0\<close>).
\<close>

theorem zero_samples_give_unknown:
  assumes "get_metric_statistics e (InstanceId self) metricname unit = []"
  shows "fst (get_idle_period_hours_for_metric e self metricname unit thr) = - 1
       \<and> fst (get_idle_period_hours_for_metric e self metricname unit thr) \<noteq> 0
       \<and> (fst (get_idle_period_hours_for_metric e' self' metricname' unit' thr') = - 1
            \<longleftrightarrow> get_metric_statistics e' (InstanceId self') metricname' unit' = [])
       \<and> (fst (get_idle_period_hours_for_metric e' self' metricname' unit' thr') < 0
            \<longleftrightarrow> fst (get_idle_period_hours_for_metric e' self' metricname' unit' thr') = - 1)"
  using assms
  by (simp add: fst_get_idle_period_hours_for_metric idle_hours_of_datapoints_empty
      idle_hours_unknown_iff idle_hours_of_datapoints_neg_iff)

theorem zero_samples_give_unknown_witness:
  "get_metric_statistics no_data_env (InstanceId named_instance) ''CPUUtilization'' ''Percent'' = []
   \<and> fst (get_idle_period_hours_for_metric no_data_env named_instance
            ''CPUUtilization'' ''Percent'' 3) = - 1
   \<and> fst (get_idle_period_hours_for_metric no_data_env named_instance
            ''CPUUtilization'' ''Percent'' 3) \<noteq> 0"
proof -
  have h: "get_metric_statistics no_data_env (InstanceId named_instance)
             ''CPUUtilization'' ''Percent'' = []"
    by (simp add: no_data_env_def)
  show ?thesis
    using h zero_samples_give_unknown [OF h, of 3] by simp
qed

subsection \<open>An isolated newest idle sample\<close>

text \<open>
  Claim C5. Let sample \<open>i\<close> be below the threshold, and let every other sample below the
  threshold be more than one reporting period older than it (so sample \<open>i\<close> is the newest
  idle one, and none is within a period before it; there may be no other at all). Then
  the idle duration is \<open>0\<close>. The witness is the series of the claim: idle at minutes 0, 5
  and 10, active at minute 15, idle again at minute 60.
\<close>

theorem isolated_idle_sample_gives_zero:
  assumes "i < length dps" and "Average (dps ! i) < thr"
    and "\<forall>j<length dps. j \<noteq> i \<longrightarrow> Average (dps ! j) < thr \<longrightarrow>
           Timestamp (dps ! i) - Timestamp (dps ! j) > REPORTING_PERIOD_SECS"
  shows "idle_hours_of_datapoints dps thr = 0"
  using assms by (rule isolated_most_recent_zero)

theorem isolated_idle_sample_gives_zero_witness:
  "4 < length isolated_series \<and> Average (isolated_series ! 4) < 3
   \<and> \<not> (\<exists>j<length isolated_series. j \<noteq> 4 \<and> Average (isolated_series ! j) < 3
           \<and> Timestamp (isolated_series ! 4) - Timestamp (isolated_series ! j)
               \<le> REPORTING_PERIOD_SECS)
   \<and> idle_hours_of_datapoints isolated_series 3 = 0"
proof -
  have len: "length isolated_series = 5" by (simp add: isolated_series_def)
  have h1: "4 < length isolated_series" by (simp add: len)
  have h2: "Average (isolated_series ! 4) < 3" by (simp add: isolated_series_def)
  have h3: "\<forall>j<length isolated_series. j \<noteq> 4 \<longrightarrow> Average (isolated_series ! j) < 3 \<longrightarrow>
              Timestamp (isolated_series ! 4) - Timestamp (isolated_series ! j)
                > REPORTING_PERIOD_SECS"
  proof (intro allI impI)
    fix j
    assume "j < length isolated_series" and "j \<noteq> 4"
    then have "j = 0 \<or> j = 1 \<or> j = 2 \<or> j = 3" using len by arith
    then show "Timestamp (isolated_series ! 4) - Timestamp (isolated_series ! j)
                 > REPORTING_PERIOD_SECS"
      by (auto simp: isolated_series_def REPORTING_PERIOD_SECS_def)
  qed
  have "idle_hours_of_datapoints isolated_series 3 = 0"
    using isolated_idle_sample_gives_zero [OF h1 h2 h3] .
  moreover have "\<not> (\<exists>j<length isolated_series. j \<noteq> 4 \<and> Average (isolated_series ! j) < 3
           \<and> Timestamp (isolated_series ! 4) - Timestamp (isolated_series ! j)
               \<le> REPORTING_PERIOD_SECS)"
    using h3 by (auto simp: not_le)
  ultimately show ?thesis using h1 h2 by blast
qed

subsection \<open>Where the newest idle run starts\<close>

lemma mset_sort_reverse: "mset (sort_reverse xs) = mset xs"
  by (simp add: sort_reverse_def)

text \<open>
  Claim C2. Let some sample be below the threshold, and let \<open>s\<close> be the idle timestamps
  sorted newest first. Then there is an index \<open>k\<close> of \<open>s\<close> such that no pair of
  neighbours before \<open>k\<close> is more than one reporting period apart (a gap equal to the period
  does not count), the pair at \<open>k\<close> is more than a period apart unless \<open>k\<close> is the last
  index (the oldest idle timestamp), and the result is the newest idle timestamp \<open>s ! 0\<close>
  minus \<open>s ! k\<close>, in hours; the result is not negative. In the witness the two newest
  timestamps are exactly a period apart and the next gap is one second longer.
\<close>

theorem idle_run_starts_at_first_break:
  assumes "collect_idle_periods dps thr \<noteq> []"
  shows "let s = sort_reverse (collect_idle_periods dps thr) in
           sorted_wrt (\<lambda>a b. b \<le> a) s \<and> mset s = mset (collect_idle_periods dps thr) \<and>
           (\<exists>k<length s.
              (\<forall>j<k. s ! j - s ! Suc j \<le> REPORTING_PERIOD_SECS) \<and>
              (Suc k < length s \<longrightarrow> s ! k - s ! Suc k > REPORTING_PERIOD_SECS) \<and>
              idle_hours_of_datapoints dps thr = of_int (s ! 0 - s ! k) / 3600) \<and>
           0 \<le> idle_hours_of_datapoints dps thr"
proof -
  define s where "s = sort_reverse (collect_idle_periods dps thr)"
  have ne: "s \<noteq> []" using assms by (simp add: s_def sort_reverse_Nil_iff)
  from scan_first_break [OF ne] obtain k where k: "k < length s"
      "\<forall>j<k. s ! j - s ! Suc j \<le> REPORTING_PERIOD_SECS"
      "Suc k < length s \<longrightarrow> s ! k - s ! Suc k > REPORTING_PERIOD_SECS"
      "find_idle_start (last s) (zip (butlast s) (tl s)) = s ! k"
    by blast
  have "idle_hours_of_datapoints dps thr = of_int (hd s - s ! k) / 3600"
    using idle_hours_of_datapoints_idle [OF assms] k(4) by (simp add: s_def)
  then have "idle_hours_of_datapoints dps thr = of_int (s ! 0 - s ! k) / 3600"
    using ne by (simp add: hd_conv_nth)
  with k have "\<exists>k<length s.
              (\<forall>j<k. s ! j - s ! Suc j \<le> REPORTING_PERIOD_SECS) \<and>
              (Suc k < length s \<longrightarrow> s ! k - s ! Suc k > REPORTING_PERIOD_SECS) \<and>
              idle_hours_of_datapoints dps thr = of_int (s ! 0 - s ! k) / 3600"
    by blast
  moreover have "sorted_wrt (\<lambda>a b. b \<le> a) s"
    unfolding s_def by (rule sorted_wrt_sort_reverse)
  moreover have "mset s = mset (collect_idle_periods dps thr)"
    unfolding s_def by (rule mset_sort_reverse)
  moreover have "0 \<le> idle_hours_of_datapoints dps thr"
  proof -
    have "dps \<noteq> []" using assms by (auto simp: collect_idle_periods_def)
    then show ?thesis by (rule idle_hours_of_datapoints_nonneg)
  qed
  ultimately show ?thesis unfolding Let_def s_def [symmetric] by blast
qed

theorem idle_run_starts_at_first_break_witness:
  "collect_idle_periods boundary_series 3 \<noteq> []
   \<and> sort_reverse (collect_idle_periods boundary_series 3) = [601, 301, 0]
   \<and> (let s = sort_reverse (collect_idle_periods boundary_series 3) in
           sorted_wrt (\<lambda>a b. b \<le> a) s \<and> mset s = mset (collect_idle_periods boundary_series 3) \<and>
           (\<exists>k<length s.
              (\<forall>j<k. s ! j - s ! Suc j \<le> REPORTING_PERIOD_SECS) \<and>
              (Suc k < length s \<longrightarrow> s ! k - s ! Suc k > REPORTING_PERIOD_SECS) \<and>
              idle_hours_of_datapoints boundary_series 3 = of_int (s ! 0 - s ! k) / 3600) \<and>
           0 \<le> idle_hours_of_datapoints boundary_series 3)
   \<and> idle_hours_of_datapoints boundary_series 3 = 1 / 12"
proof -
  have c: "collect_idle_periods boundary_series 3 = [0, 301, 601]"
    by (simp add: collect_idle_periods_def boundary_series_def)
  have h: "collect_idle_periods boundary_series 3 \<noteq> []" by (simp add: c)
  have s: "sort_reverse (collect_idle_periods boundary_series 3) = [601, 301, 0]"
    by (simp add: c sort_reverse_def)
  have v: "idle_hours_of_datapoints boundary_series 3 = 1 / 12"
    using h s
    by (simp add: idle_hours_of_datapoints_def boundary_series_def REPORTING_PERIOD_SECS_def)
  show ?thesis
    using h s v idle_run_starts_at_first_break [OF h] by blast
qed

section \<open>Aggregation over the metrics of an instance\<close>

subsection \<open>Values and calls of the category properties\<close>

lemma fst_network_idle_period_hours:
  "fst (network_idle_period_hours e self) =
     max (fst (get_idle_period_hours_for_metric e self ''NetworkPacketsIn'' ''Count'' (min_network self)))
         (fst (get_idle_period_hours_for_metric e self ''NetworkPacketsOut'' ''Count'' (min_network self)))"
  by (simp add: network_idle_period_hours_def split_def Let_def)

lemma get_idle_neg_iff:
  "fst (get_idle_period_hours_for_metric e self m u thr) < 0 \<longleftrightarrow>
   fst (get_idle_period_hours_for_metric e self m u thr) = - 1"
  by (simp add: fst_get_idle_period_hours_for_metric idle_hours_of_datapoints_neg_iff)

lemma fst_disk_metric_with_fallback:
  "fst (disk_metric_with_fallback e self ebs_metric disk_metric) =
     (if fst (get_idle_period_hours_for_metric e self ebs_metric ''Count'' (min_disk self)) = - 1
      then fst (get_idle_period_hours_for_metric e self disk_metric ''Count'' (min_disk self))
      else fst (get_idle_period_hours_for_metric e self ebs_metric ''Count'' (min_disk self)))"
  using get_idle_neg_iff [of e self ebs_metric "''Count''" "min_disk self"]
  by (simp add: disk_metric_with_fallback_def split_def Let_def)

lemma snd_disk_metric_with_fallback:
  "snd (disk_metric_with_fallback e self ebs_metric disk_metric) =
     GetMetricStatistics (InstanceId self) ebs_metric #
     (if fst (get_idle_period_hours_for_metric e self ebs_metric ''Count'' (min_disk self)) = - 1
      then [GetMetricStatistics (InstanceId self) disk_metric] else [])"
  using get_idle_neg_iff [of e self ebs_metric "''Count''" "min_disk self"]
  by (simp add: disk_metric_with_fallback_def split_def Let_def get_idle_period_hours_for_metric_def)

lemma fst_disk_idle_period_hours:
  "fst (disk_idle_period_hours e self) =
     max (fst (disk_metric_with_fallback e self ''EBSReadOps'' ''DiskReadOps''))
         (fst (disk_metric_with_fallback e self ''EBSWriteOps'' ''DiskWriteOps''))"
  by (simp add: disk_idle_period_hours_def split_def Let_def)

lemma snd_disk_idle_period_hours:
  "snd (disk_idle_period_hours e self) =
     snd (disk_metric_with_fallback e self ''EBSReadOps'' ''DiskReadOps'') @
     snd (disk_metric_with_fallback e self ''EBSWriteOps'' ''DiskWriteOps'')"
  by (simp add: disk_idle_period_hours_def split_def Let_def)

lemma fst_idle_period_hours:
  "fst (idle_period_hours e self) =
     min (fst (cpu_idle_period_hours e self))
       (min (fst (disk_idle_period_hours e self)) (fst (network_idle_period_hours e self)))"
  by (simp add: idle_period_hours_def split_def Let_def)


subsection \<open>The callbacks called for one instance\<close>

lemma actions_of_append: "actions_of (xs @ ys) = actions_of xs @ actions_of ys"
  by (simp add: actions_of_def)

lemma actions_of_Nil [simp]: "actions_of [] = []"
  by (simp add: actions_of_def)

lemma actions_of_Cons [simp]:
  "actions_of (ev # evs) = (if is_action ev then ev # actions_of evs else actions_of evs)"
  by (simp add: actions_of_def)

lemma actions_of_get_idle [simp]:
  "actions_of (snd (get_idle_period_hours_for_metric e self m u thr)) = []"
  by (simp add: get_idle_period_hours_for_metric_def)

lemma actions_of_cpu [simp]: "actions_of (snd (cpu_idle_period_hours e self)) = []"
  by (simp add: cpu_idle_period_hours_def)

lemma actions_of_network [simp]: "actions_of (snd (network_idle_period_hours e self)) = []"
  by (simp add: network_idle_period_hours_def split_def Let_def actions_of_append)

lemma actions_of_fallback [simp]:
  "actions_of (snd (disk_metric_with_fallback e self m1 m2)) = []"
  by (simp add: disk_metric_with_fallback_def split_def Let_def actions_of_append)

lemma actions_of_disk [simp]: "actions_of (snd (disk_idle_period_hours e self)) = []"
  by (simp add: snd_disk_idle_period_hours actions_of_append)

lemma actions_of_idle_period_hours [simp]:
  "actions_of (snd (idle_period_hours e self)) = []"
  by (simp add: idle_period_hours_def split_def Let_def actions_of_append)

lemma actions_of_print_idleness [simp]: "actions_of (snd (print_idleness e inst)) = []"
  by (simp add: print_idleness_def actions_of_append split: sum.splits)

lemma actions_of_act_on_idleness:
  "actions_of (snd (act_on_idleness e k inst c)) =
     (if fst (idle_period_hours e inst) < of_int (stop_instance_idle_timeout_hours k) then
        if of_int (warning_idle_timeout_hours k) \<le> fst (idle_period_hours e inst)
        then [WarningCallback inst] else []
      else [StopInstanceCallback inst])"
  by (simp add: act_on_idleness_def split_def Let_def actions_of_append split: sum.splits)

lemma snd_check_instance:
  "snd (check_instance e k inst c) =
     (if is_running inst \<or> include_stopped k then
        snd (act_on_idleness e k inst (c\<lparr>checked := checked c + 1\<rparr>)) @
        (if verbose k \<and> \<not> isl (fst (act_on_idleness e k inst (c\<lparr>checked := checked c + 1\<rparr>)))
         then snd (print_idleness e inst) else [])
      else [])"
  by (cases "act_on_idleness e k inst (c\<lparr>checked := checked c + 1\<rparr>)";
      cases "print_idleness e inst")
     (auto simp: check_instance_def split: sum.splits)

lemma actions_of_check_instance:
  "actions_of (snd (check_instance e k inst c)) =
     (if is_running inst \<or> include_stopped k then
        if fst (idle_period_hours e inst) < of_int (stop_instance_idle_timeout_hours k) then
          if of_int (warning_idle_timeout_hours k) \<le> fst (idle_period_hours e inst)
          then [WarningCallback inst] else []
        else [StopInstanceCallback inst]
      else [])"
  by (simp add: snd_check_instance actions_of_append actions_of_act_on_idleness)


subsection \<open>Network and disk\<close>

text \<open>
  Claim C6. The network idle duration is the maximum of the idle durations of
  \<^verbatim>\<open>NetworkPacketsIn\<close> and \<^verbatim>\<open>NetworkPacketsOut\<close>. The disk idle duration is the maximum of
  the read and the write duration, where each direction is the result for the EBS metric
  unless that is unknown (\<open>- 1\<close>), and then the result for the \<^verbatim>\<open>Disk...Ops\<close> metric of the
  same direction. The calls show the order: the EBS metric is asked first, the second
  metric only after an unknown.
\<close>

theorem network_and_disk_combine_by_max:
  "(let packets_in = fst (get_idle_period_hours_for_metric e self ''NetworkPacketsIn'' ''Count''
                            (min_network self));
        packets_out = fst (get_idle_period_hours_for_metric e self ''NetworkPacketsOut'' ''Count''
                             (min_network self))
    in fst (network_idle_period_hours e self) = max packets_in packets_out)
   \<and>
   (let ebs_read = fst (get_idle_period_hours_for_metric e self ''EBSReadOps'' ''Count''
                         (min_disk self));
        disk_read = fst (get_idle_period_hours_for_metric e self ''DiskReadOps'' ''Count''
                          (min_disk self));
        ebs_write = fst (get_idle_period_hours_for_metric e self ''EBSWriteOps'' ''Count''
                          (min_disk self));
        disk_write = fst (get_idle_period_hours_for_metric e self ''DiskWriteOps'' ''Count''
                           (min_disk self))
    in fst (disk_idle_period_hours e self) =
         max (if ebs_read = - 1 then disk_read else ebs_read)
             (if ebs_write = - 1 then disk_write else ebs_write)
       \<and> snd (disk_idle_period_hours e self) =
           [GetMetricStatistics (InstanceId self) ''EBSReadOps''] @
           (if ebs_read = - 1 then [GetMetricStatistics (InstanceId self) ''DiskReadOps''] else []) @
           [GetMetricStatistics (InstanceId self) ''EBSWriteOps''] @
           (if ebs_write = - 1 then [GetMetricStatistics (InstanceId self) ''DiskWriteOps''] else []))"
  by (simp add: Let_def fst_network_idle_period_hours fst_disk_idle_period_hours
      snd_disk_idle_period_hours fst_disk_metric_with_fallback snd_disk_metric_with_fallback)

subsection \<open>The effective idle duration\<close>

lemma get_idle_range:
  "fst (get_idle_period_hours_for_metric e self m u thr) = - 1 \<or>
   0 \<le> fst (get_idle_period_hours_for_metric e self m u thr)"
  by (simp add: fst_get_idle_period_hours_for_metric idle_hours_of_datapoints_range)

lemma cpu_range:
  "fst (cpu_idle_period_hours e self) = - 1 \<or> 0 \<le> fst (cpu_idle_period_hours e self)"
  by (simp add: cpu_idle_period_hours_def get_idle_range)

lemma network_range:
  "fst (network_idle_period_hours e self) = - 1 \<or> 0 \<le> fst (network_idle_period_hours e self)"
  using get_idle_range [of e self "''NetworkPacketsIn''" "''Count''" "min_network self"]
    get_idle_range [of e self "''NetworkPacketsOut''" "''Count''" "min_network self"]
  unfolding fst_network_idle_period_hours by (auto simp: max_def)

lemma fallback_range:
  "fst (disk_metric_with_fallback e self m1 m2) = - 1 \<or>
   0 \<le> fst (disk_metric_with_fallback e self m1 m2)"
  using get_idle_range [of e self m1 "''Count''" "min_disk self"]
    get_idle_range [of e self m2 "''Count''" "min_disk self"]
  unfolding fst_disk_metric_with_fallback by auto

lemma disk_range:
  "fst (disk_idle_period_hours e self) = - 1 \<or> 0 \<le> fst (disk_idle_period_hours e self)"
  using fallback_range [of e self "''EBSReadOps''" "''DiskReadOps''"]
    fallback_range [of e self "''EBSWriteOps''" "''DiskWriteOps''"]
  unfolding fst_disk_idle_period_hours by (auto simp: max_def)

lemma idle_unknown_if_any_unknown:
  assumes "fst (cpu_idle_period_hours e self) = - 1 \<or> fst (disk_idle_period_hours e self) = - 1
           \<or> fst (network_idle_period_hours e self) = - 1"
  shows "fst (idle_period_hours e self) = - 1"
  using assms cpu_range [of e self] disk_range [of e self] network_range [of e self]
  unfolding fst_idle_period_hours by (auto simp: min_def)

text \<open>
  Claim C1 says that a category with an unknown result is left out of the minimum, so that
  CPU unknown, disk 8 hours and network 12 hours give 8 hours. The source takes the plain
  minimum of the three numbers, and unknown is the number \<open>- 1\<close>: for these inputs the
  result is \<open>- 1\<close>.
\<close>

theorem unknown_category_not_excluded_counterexample:
  "fst (cpu_idle_period_hours cpu_unknown_env named_instance) = - 1
   \<and> fst (disk_idle_period_hours cpu_unknown_env named_instance) = 8
   \<and> fst (network_idle_period_hours cpu_unknown_env named_instance) = 12
   \<and> fst (idle_period_hours cpu_unknown_env named_instance) = - 1
   \<and> fst (idle_period_hours cpu_unknown_env named_instance) \<noteq> 8"
  by code_simp

text \<open>
  Claim C1, as the source has it. The effective idle duration is the minimum of the three
  category results, unknown counting as \<open>- 1\<close>. So it is unknown as soon as one category
  is unknown, and in particular when all three are. With timeouts that are not negative,
  an instance whose effective idle duration is unknown gets neither callback.
\<close>

theorem effective_idle_is_plain_minimum:
  "let cpu = fst (cpu_idle_period_hours e self);
       disk = fst (disk_idle_period_hours e self);
       network = fst (network_idle_period_hours e self);
       idle = fst (idle_period_hours e self)
   in idle = min cpu (min disk network)
      \<and> (cpu = - 1 \<or> disk = - 1 \<or> network = - 1 \<longrightarrow> idle = - 1)
      \<and> (idle = - 1 \<and> 0 \<le> warning_idle_timeout_hours k
           \<and> 0 \<le> stop_instance_idle_timeout_hours k \<longrightarrow>
          actions_of (snd (check_instance e k self c)) = [])"
proof -
  have "fst (idle_period_hours e self) = - 1 \<Longrightarrow> 0 \<le> warning_idle_timeout_hours k \<Longrightarrow>
        0 \<le> stop_instance_idle_timeout_hours k \<Longrightarrow>
        actions_of (snd (check_instance e k self c)) = []"
    by (simp add: actions_of_check_instance)
  then show ?thesis
    unfolding Let_def
    using idle_unknown_if_any_unknown [of e self] fst_idle_period_hours [of e self]
    by blast
qed

theorem effective_idle_is_plain_minimum_witness:
  "fst (cpu_idle_period_hours cpu_unknown_env named_instance) = - 1
   \<and> fst (idle_period_hours cpu_unknown_env named_instance) = - 1
   \<and> (0::int) \<le> warning_idle_timeout_hours (default_kwargs cpu_unknown_env)
   \<and> (0::int) \<le> stop_instance_idle_timeout_hours (default_kwargs cpu_unknown_env)
   \<and> actions_of (snd (check_instance cpu_unknown_env (default_kwargs cpu_unknown_env)
                        named_instance \<lparr>warned = 0, stopped = 0, checked = 0\<rparr>)) = []"
proof -
  have cpu: "fst (cpu_idle_period_hours cpu_unknown_env named_instance) = - 1"
    by (simp add: cpu_idle_period_hours_def fst_get_idle_period_hours_for_metric
        cpu_unknown_env_def idle_hours_of_datapoints_empty)
  have w: "(0::int) \<le> warning_idle_timeout_hours (default_kwargs cpu_unknown_env)"
    and s: "(0::int) \<le> stop_instance_idle_timeout_hours (default_kwargs cpu_unknown_env)"
    by (simp_all add: default_kwargs_def)
  show ?thesis
    using cpu w s
      effective_idle_is_plain_minimum [of cpu_unknown_env named_instance
        "default_kwargs cpu_unknown_env" "\<lparr>warned = 0, stopped = 0, checked = 0\<rparr>"]
    unfolding Let_def by blast
qed


subsection \<open>The decision on the two timeouts\<close>

text \<open>
  Claim C3 says that an instance whose idle duration is unknown gets no action, whatever
  the timeouts. Unknown is the number \<open>- 1\<close>, and the loop compares it with the timeouts
  like any other number: for a running instance without any metric data, a warning timeout
  of \<open>- 1\<close> calls the warning callback, and a stop timeout of \<open>- 1\<close> calls the stop
  callback.
\<close>

theorem unknown_idleness_can_trigger_actions_counterexample:
  "is_running named_instance
   \<and> fst (idle_period_hours no_data_env named_instance) = - 1
   \<and> actions_of (snd (check_instance no_data_env
         ((default_kwargs no_data_env)\<lparr>warning_idle_timeout_hours := - 1\<rparr>)
         named_instance \<lparr>warned = 0, stopped = 0, checked = 0\<rparr>))
       = [WarningCallback named_instance]
   \<and> actions_of (snd (check_instance no_data_env
         ((default_kwargs no_data_env)\<lparr>stop_instance_idle_timeout_hours := - 1\<rparr>)
         named_instance \<lparr>warned = 0, stopped = 0, checked = 0\<rparr>))
       = [StopInstanceCallback named_instance]"
proof -
  have r: "is_running named_instance"
    by (simp add: is_running_def named_instance_def Instance_def named_instance_dict_def)
  have i: "fst (idle_period_hours no_data_env named_instance) = - 1"
    by code_simp
  show ?thesis
    using r i by (simp add: actions_of_check_instance default_kwargs_def)
qed

text \<open>
  Claim C3, as the source has it. For an instance in scope (running, or any instance when
  stopped ones are included), the loop body calls the warning callback exactly when the
  effective idle duration is at least the warning timeout and below the stop timeout, and
  the stop callback exactly when it is at least the stop timeout; never both, and at most
  one callback. With the warning timeout not above the stop timeout, an idle duration
  below the warning timeout gets no callback. An unknown duration (\<open>- 1\<close>) gets none when
  neither timeout is negative. With the timeouts 6 and 4: 5 hours warn only, 7 hours stop
  only, 3 hours do neither.
\<close>

theorem threshold_decision:
  assumes "is_running inst \<or> include_stopped k"
  shows "let idle = fst (idle_period_hours e inst);
             stop = rat_of_int (stop_instance_idle_timeout_hours k);
             warning = rat_of_int (warning_idle_timeout_hours k);
             acts = actions_of (snd (check_instance e k inst c))
         in (WarningCallback inst \<in> set acts \<longleftrightarrow> warning \<le> idle \<and> idle < stop)
          \<and> (StopInstanceCallback inst \<in> set acts \<longleftrightarrow> stop \<le> idle)
          \<and> \<not> (WarningCallback inst \<in> set acts \<and> StopInstanceCallback inst \<in> set acts)
          \<and> length acts \<le> 1
          \<and> (warning \<le> stop \<and> idle < warning \<longrightarrow> acts = [])
          \<and> (0 \<le> warning \<and> 0 \<le> stop \<and> idle = - 1 \<longrightarrow> acts = [])
          \<and> (stop = 6 \<and> warning = 4 \<longrightarrow>
                (idle = 5 \<longrightarrow> acts = [WarningCallback inst])
              \<and> (idle = 7 \<longrightarrow> acts = [StopInstanceCallback inst])
              \<and> (idle = 3 \<longrightarrow> acts = []))"
  using assms unfolding Let_def actions_of_check_instance by auto

theorem threshold_decision_witness:
  "is_running named_instance
   \<and> fst (idle_period_hours five_hours_idle_env named_instance) = 5
   \<and> stop_instance_idle_timeout_hours (default_kwargs five_hours_idle_env) = 6
   \<and> warning_idle_timeout_hours (default_kwargs five_hours_idle_env) = 4
   \<and> actions_of (snd (check_instance five_hours_idle_env (default_kwargs five_hours_idle_env)
                        named_instance \<lparr>warned = 0, stopped = 0, checked = 0\<rparr>))
       = [WarningCallback named_instance]"
proof -
  have r: "is_running named_instance"
    by (simp add: is_running_def named_instance_def Instance_def named_instance_dict_def)
  have i: "fst (idle_period_hours five_hours_idle_env named_instance) = 5"
    by code_simp
  have s: "stop_instance_idle_timeout_hours (default_kwargs five_hours_idle_env) = 6"
    and w: "warning_idle_timeout_hours (default_kwargs five_hours_idle_env) = 4"
    by (simp_all add: default_kwargs_def)
  have "is_running named_instance \<or> include_stopped (default_kwargs five_hours_idle_env)"
    using r by simp
  from threshold_decision [OF this, of five_hours_idle_env
      "\<lparr>warned = 0, stopped = 0, checked = 0\<rparr>"]
  have "actions_of (snd (check_instance five_hours_idle_env (default_kwargs five_hours_idle_env)
                        named_instance \<lparr>warned = 0, stopped = 0, checked = 0\<rparr>))
       = [WarningCallback named_instance]"
    unfolding Let_def using i s w by simp
  with r i s w show ?thesis by blast
qed

section \<open>Display names\<close>





section \<open>The volume pass\<close>

lemma warn_without_error:
  assumes "slack_send_func = None \<or> (\<exists>send. slack_send_func = Some send \<and> (\<forall>msg. send msg = Inr ()))"
  shows "warn slack_send_func msg printed = (Inr (), printed @ [msg])"
  using assms by (auto simp: warn_def)

lemma sum_list_replicate_int: "sum_list (replicate n (x::int)) = int n * x"
  by (induction n) (simp_all add: algebra_simps)

text \<open>
  Claim C9 says that every exceeded threshold gives a warning, for every set of volumes.
  The local function \<^verbatim>\<open>warn\<close> calls the sender before it prints, so a sender that raises
  ends the pass at the first warning: with 25 available volumes of 12000 GB in all, and
  \<^verbatim>\<open>slack_send\<close> of \<^verbatim>\<open>reaper.py\<close> as the sender while no webhook is set, nothing is printed.
\<close>

theorem raising_sender_prints_nothing_counterexample:
  "length (filter (\<lambda>v. volume.State v = ''available'') many_available_volumes) = 25
   \<and> sum_list (map Size many_available_volumes) = 12000
   \<and> check_volumes (Some (slack_send no_data_env)) many_available_volumes
       = (Inl MissingWebhook, [])"
proof -
  have a: "length (filter (\<lambda>v. volume.State v = ''available'') many_available_volumes) = 25"
    by (simp add: many_available_volumes_def available_volume_def)
  have c: "sum_list (map Size many_available_volumes) = 12000"
    by (simp add: many_available_volumes_def available_volume_def sum_list_replicate_int)
  have w: "warn (Some (slack_send no_data_env)) msg printed = (Inl MissingWebhook, printed)"
    for msg :: ebs_warning and printed
    by (simp add: warn_def slack_send_def no_data_env_def)
  have "check_volumes (Some (slack_send no_data_env)) many_available_volumes
       = (Inl MissingWebhook, [])"
    using a by (simp add: check_volumes_def Let_def w MAX_AVAILABLE_def)
  with a c show ?thesis by blast
qed

text \<open>
  Claim C9, as the source has it. When no Slack sender is given, or the sender does not
  raise, the pass over the listed volumes completes and prints one warning for each
  threshold that is exceeded, in this order and each whatever the other two checks find:
  more than 20 volumes in state \<^verbatim>\<open>available\<close>; more than 10 volumes in state \<^verbatim>\<open>in-use\<close>
  with a size above 200; a total size above 10000. With 25 available volumes, a total size
  of 12000 and no large volume in use, the warnings are exactly the first and the third.
\<close>

theorem volume_checks_are_independent:
  assumes "slack_send_func = None \<or> (\<exists>send. slack_send_func = Some send \<and> (\<forall>msg. send msg = Inr ()))"
  shows "let n_available = length (filter (\<lambda>v. volume.State v = ''available'') volumes_vec);
             n_inuse_over_200GB =
               length (filter (\<lambda>v. volume.State v = ''in-use'' \<and> Size v > 200) volumes_vec);
             total_size = sum_list (map Size volumes_vec);
             printed = snd (check_volumes slack_send_func volumes_vec)
         in fst (check_volumes slack_send_func volumes_vec) = Inr ()
          \<and> printed =
              (if n_available > 20 then [AvailableExceedsThreshold n_available 20] else []) @
              (if n_inuse_over_200GB > 10
               then [InUseOver200GBExceedsThreshold n_inuse_over_200GB 10] else []) @
              (if total_size > 10000 then [TotalSizeExceedsThreshold total_size 10000] else [])
          \<and> (n_available = 25 \<and> n_inuse_over_200GB = 0 \<and> total_size = 12000 \<longrightarrow>
                printed = [AvailableExceedsThreshold 25 20, TotalSizeExceedsThreshold 12000 10000])"
  by (simp add: check_volumes_def Let_def warn_without_error [OF assms]
      MAX_AVAILABLE_def MAX_IN_USE_OVER_200GB_def MAX_EBS_SIZE_def)

theorem volume_checks_are_independent_witness:
  "length (filter (\<lambda>v. volume.State v = ''available'') many_available_volumes) = 25
   \<and> length (filter (\<lambda>v. volume.State v = ''in-use'' \<and> Size v > 200) many_available_volumes) = 0
   \<and> sum_list (map Size many_available_volumes) = 12000
   \<and> check_volumes (None :: (ebs_warning \<Rightarrow> error + unit) option) many_available_volumes
       = (Inr (), [AvailableExceedsThreshold 25 20, TotalSizeExceedsThreshold 12000 10000])"
proof -
  have a: "length (filter (\<lambda>v. volume.State v = ''available'') many_available_volumes) = 25"
    by (simp add: many_available_volumes_def available_volume_def)
  have b: "length (filter (\<lambda>v. volume.State v = ''in-use'' \<and> Size v > 200)
             many_available_volumes) = 0"
    by (simp add: many_available_volumes_def available_volume_def)
  have c: "sum_list (map Size many_available_volumes) = 12000"
    by (simp add: many_available_volumes_def available_volume_def sum_list_replicate_int)
  have h: "(None :: (ebs_warning \<Rightarrow> error + unit) option) = None \<or>
           (\<exists>send. (None :: (ebs_warning \<Rightarrow> error + unit) option) = Some send
              \<and> (\<forall>msg. send msg = Inr ()))"
    by simp
  have "check_volumes (None :: (ebs_warning \<Rightarrow> error + unit) option) many_available_volumes
       = (Inr (), [AvailableExceedsThreshold 25 20, TotalSizeExceedsThreshold 12000 10000])"
    using volume_checks_are_independent [OF h, of many_available_volumes] a b c
    unfolding Let_def by (simp add: prod_eq_iff)
  with a b c show ?thesis by blast
qed

section \<open>Listing with continuation tokens\<close>

subsection \<open>Volumes\<close>

lemma describe_volumes_loop_repeats:
  assumes "volumes_response.NextToken (describe_volumes None) \<noteq> None"
  shows "describe_volumes_loop fuel describe_volumes volumes_vec = None"
  using assms by (induction fuel arbitrary: volumes_vec) (simp_all add: Let_def)

lemma describe_volumes_loop_single_page:
  assumes "volumes_response.NextToken (describe_volumes None) = None"
  shows "describe_volumes_loop (Suc fuel) describe_volumes [] = Some (Volumes (describe_volumes None))"
  using assms by (simp add: Let_def)

text \<open>
  Claim C8 asks both listing loops to pass the token of each response into the next
  request and to end with every resource of every page. The loop of \<^verbatim>\<open>ebs_reaper\<close> never
  sends the token: for two volumes listed on two pages it asks for the first page again
  and again, and with no amount of fuel does the listing, or \<^verbatim>\<open>ebs_reaper\<close>, return.
\<close>

theorem volume_listing_does_not_follow_the_token:
  "describe_volumes_loop fuel (paged_volumes two_pages_of_volumes) [] = None
   \<and> ebs_reaper fuel (paged_volumes two_pages_of_volumes) slack_send_func = None"
proof -
  have "volumes_response.NextToken (paged_volumes two_pages_of_volumes None) \<noteq> None"
    by (simp add: paged_volumes_def two_pages_of_volumes_def)
  then have "describe_volumes_loop fuel (paged_volumes two_pages_of_volumes) [] = None"
    by (rule describe_volumes_loop_repeats)
  then show ?thesis by (simp add: ebs_reaper_def)
qed


subsection \<open>Instances\<close>

text \<open>
  The loop of \<^verbatim>\<open>reaper\<close> does send the token: on a paged service it makes one request per
  page and returns the instances of all pages, each once and in order.
\<close>

lemma length_page_token [simp]: "length (page_token i) = i"
  by (simp add: page_token_def)

lemma describe_instances_paged_env [simp]:
  "describe_instances (paged_env pages) = paged_instances pages"
  by (simp add: paged_env_def)

lemma describe_instances_loop_drains_from:
  assumes "i < length pages" and "n = length pages - i"
  shows "describe_instances_loop n (paged_env pages) k (page_token i) instances_vec calls =
           Some (instances_vec @
                   concat (map (\<lambda>page. concat (map (map (\<lambda>d. Instance d (min_cpu_utilisation k)
                                   (min_disk_ops k) (min_network_packets k))) page))
                             (drop i pages)),
                 calls @ map (\<lambda>j. DescribeInstances (page_token j)) [i..<length pages])"
  using assms
proof (induction n arbitrary: i instances_vec calls)
  case 0
  then show ?case by simp
next
  case (Suc n)
  have d: "drop i pages = pages ! i # drop (Suc i) pages"
    using Suc.prems(1) by (simp add: Cons_nth_drop_Suc)
  have u: "[i..<length pages] = i # [Suc i..<length pages]"
    using Suc.prems(1) by (simp add: upt_conv_Cons)
  show ?case
  proof (cases "Suc i < length pages")
    case True
    then have n: "n = length pages - Suc i" using Suc.prems(2) by simp
    show ?thesis
      using True Suc.prems(1)
      by (simp add: paged_instances_def Let_def Suc.IH [OF True n] d u)
  next
    case False
    then have "drop (Suc i) pages = []" and "[Suc i..<length pages] = []" by simp_all
    then show ?thesis
      using False Suc.prems(1)
      by (simp add: paged_instances_def Let_def d u)
  qed
qed

lemma describe_instances_loop_drains:
  assumes "pages \<noteq> []"
  shows "describe_instances_loop (length pages) (paged_env pages) k [] [] [] =
           Some (concat (map (\<lambda>page. concat (map (map (\<lambda>d. Instance d (min_cpu_utilisation k)
                                   (min_disk_ops k) (min_network_packets k))) page)) pages),
                 map (\<lambda>j. DescribeInstances (page_token j)) [0..<length pages])"
proof -
  have "0 < length pages" using assms by simp
  from describe_instances_loop_drains_from [OF this, of "length pages" k "[]" "[]"]
  show ?thesis by (simp add: page_token_def)
qed

section \<open>Configuration errors\<close>







section \<open>The callbacks of a whole pass\<close>

text \<open>
  In a pass that completes, the callbacks called are those of the single decisions, in the
  order of the instances.
\<close>

lemma actions_of_check_instances:
  assumes "fst (check_instances e k insts c) = Inr c'"
  shows "actions_of (snd (check_instances e k insts c)) =
           concat (map (\<lambda>inst. actions_of (snd (check_instance e k inst c0))) insts)"
  using assms
proof (induction insts arbitrary: c)
  case Nil
  then show ?case by simp
next
  case (Cons inst rest)
  obtain r calls where ci: "check_instance e k inst c = (r, calls)"
    by (cases "check_instance e k inst c")
  have same: "actions_of (snd (check_instance e k inst c0)) = actions_of calls"
    using ci actions_of_check_instance [of e k inst c] actions_of_check_instance [of e k inst c0]
    by simp
  show ?case
  proof (cases r)
    case (Inl b)
    then show ?thesis using ci Cons.prems by simp
  next
    case (Inr c1)
    with Cons.prems ci have "fst (check_instances e k rest c1) = Inr c'"
      by (simp add: split_def Let_def)
    then have "actions_of (snd (check_instances e k rest c1)) =
           concat (map (\<lambda>inst. actions_of (snd (check_instance e k inst c0))) rest)"
      by (rule Cons.IH)
    then show ?thesis
      using ci Inr same by (simp add: split_def Let_def actions_of_append)
  qed
qed

end
